theory Spec2Isabelle
  imports Complex_Main "HOL-Library.Sublist" "HOL-Library.AList" "HOL-Library.Multiset"
begin

section \<open>Python strings\<close>

text \<open>
  A Python \<open>str\<close> is a sequence of code points. Here a string is a \<open>char list\<close> whose
  characters are the code points below 256; \<open>str.lower\<close>, \<open>str.isspace\<close>, \<open>str.lstrip\<close>,
  \<open>str.strip\<close>, \<open>str.startswith\<close> and the substring test \<open>x in s\<close> are written out for them.
\<close>

definition lower_char :: "char \<Rightarrow> char" where
  "lower_char c =
     (let n = (of_char c :: nat)
      in if (65 \<le> n \<and> n \<le> 90) \<or> (192 \<le> n \<and> n \<le> 222 \<and> n \<noteq> 215)
         then char_of (n + 32) else c)"

definition lower :: "string \<Rightarrow> string" where
  "lower s = map lower_char s"

definition isspace :: "char \<Rightarrow> bool" where
  "isspace c =
     (let n = (of_char c :: nat)
      in (9 \<le> n \<and> n \<le> 13) \<or> (28 \<le> n \<and> n \<le> 32) \<or> n = 133 \<or> n = 160)"

definition lstrip :: "string \<Rightarrow> string" where
  "lstrip s = dropWhile isspace s"

definition strip :: "string \<Rightarrow> string" where
  "strip s = rev (dropWhile isspace (rev (dropWhile isspace s)))"

definition startswith :: "string \<Rightarrow> string \<Rightarrow> bool" where
  "startswith s p = prefix p s"

definition contains :: "string \<Rightarrow> string \<Rightarrow> bool" where
  \<comment> \<open>\<open>contains s x\<close> is Python's \<open>x in s\<close>\<close>
  "contains s x = sublist x s"


section \<open>The constrained selector\<close>

subsection \<open>Data\<close>

text \<open>
  A problem of the catalog, with the fields the selector reads:
  \<open>p["contestId"]\<close>, \<open>p["index"]\<close>, \<open>p["rating"]\<close>, \<open>p["name"]\<close> and
  \<open>p.get("tags", [])\<close>.
\<close>

record problem =
  contestId :: int
  index :: string
  rating :: int
  name :: string
  tags :: "string list"

definition key :: "problem \<Rightarrow> int \<times> string" where
  "key p = (contestId p, index p)"

text \<open>
  \<open>set(map(str.lower, cand.get("tags", [])))\<close>: the lowercased tags, each once. The
  program tests the set for membership and counts each of its elements once; the order in
  which it is listed here has no influence on these.
\<close>

definition tags_lower :: "problem \<Rightarrow> string list" where
  "tags_lower p = remdups (map lower (tags p))"

text \<open>
  The selection constraints after line 191, where \<open>tag_caps\<close> is rebound to the
  dictionary with lowercased keys from which the entries below 1 are dropped. A Python
  dictionary keeps insertion order, and storing under a key that is present keeps the
  key's position: an association list with \<open>AList.update\<close>.
\<close>

record constraints =
  distinct_contest :: bool
  distinct_tags :: bool
  tag_caps :: "(string \<times> int) list"

definition caps_norm :: "(string \<times> int) list option \<Rightarrow> (string \<times> int) list" where
  "caps_norm tc =
     foldl (\<lambda>d (k, v). if v \<ge> 1 then AList.update (lower k) v d else d) []
       (case tc of None \<Rightarrow> [] | Some items \<Rightarrow> items)"

text \<open>
  The running state of the selection loop (lines 200 to 203); \<open>tag_counts\<close> is a
  dictionary, kept in insertion order.
\<close>

record sel_state =
  picked :: "problem list"
  used_keys :: "(int \<times> string) set"
  used_contests :: "int set"
  tag_counts :: "(string \<times> nat) list"

definition init_state :: sel_state where
  "init_state = \<lparr>picked = [], used_keys = {}, used_contests = {}, tag_counts = []\<rparr>"

definition count_of :: "(string \<times> nat) list \<Rightarrow> string \<Rightarrow> nat" where
  \<comment> \<open>\<open>tag_counts.get(t, 0)\<close>\<close>
  "count_of tc t = (case map_of tc t of None \<Rightarrow> 0 | Some n \<Rightarrow> n)"

datatype detail = Distinct_contest | No_tag_repetition | Tag_caps "(string \<times> int) list"

text \<open>
  The \<open>RuntimeError\<close> of line 239: the rating that could not be served and the list
  \<open>detail\<close> of the constraints in force.
\<close>

datatype sel_error = No_available_problem int "detail list"

subsection \<open>Operations\<close>

definition violates_tag_rules :: "constraints \<Rightarrow> (string \<times> nat) list \<Rightarrow> string list \<Rightarrow> bool" where
  "violates_tag_rules C tc ts =
     (if distinct_tags C \<and> list_ex (\<lambda>t. count_of tc t \<ge> 1) ts then True
      else list_ex (\<lambda>t. case map_of (tag_caps C) t of
                          None \<Rightarrow> False
                        | Some cap \<Rightarrow> int (count_of tc t) \<ge> cap) ts)"

definition bump_tags :: "(string \<times> nat) list \<Rightarrow> string list \<Rightarrow> (string \<times> nat) list" where
  \<comment> \<open>lines 231 and 232\<close>
  "bump_tags tc ts = foldl (\<lambda>m t. AList.update t (count_of m t + 1) m) tc ts"

definition accept :: "constraints \<Rightarrow> sel_state \<Rightarrow> problem \<Rightarrow> sel_state" where
  \<comment> \<open>lines 228 to 232\<close>
  "accept C st cand =
     st\<lparr>used_keys := insert (key cand) (used_keys st),
        used_contests := (if distinct_contest C then insert (contestId cand) (used_contests st)
                          else used_contests st),
        tag_counts := bump_tags (tag_counts st) (tags_lower cand)\<rparr>"

definition rejected :: "constraints \<Rightarrow> sel_state \<Rightarrow> problem \<Rightarrow> bool" where
  \<comment> \<open>the three \<open>continue\<close> tests of lines 220 to 226\<close>
  "rejected C st cand =
     (key cand \<in> used_keys st
      \<or> (distinct_contest C \<and> contestId cand \<in> used_contests st)
      \<or> violates_tag_rules C (tag_counts st) (tags_lower cand))"

text \<open>
  The \<open>while pool\<close> loop of lines 217 to 233: candidates are popped from the end of the
  pool until one is accepted or the pool is empty. The result is \<open>chosen\<close>, what is left
  of the pool, and the state.
\<close>

function scan_pool ::
  "constraints \<Rightarrow> sel_state \<Rightarrow> problem list \<Rightarrow> problem option \<times> problem list \<times> sel_state" where
  "scan_pool C st pool =
     (if pool = [] then (None, pool, st)
      else let cand = last pool; pool' = butlast pool
           in if rejected C st cand then scan_pool C st pool'
              else (Some cand, pool', accept C st cand))"
  by pat_completeness auto
termination
  by (relation "measure (\<lambda>(C, st, pool). length pool)") auto

declare scan_pool.simps [simp del]

text \<open>
  \<open>buckets\<close> is a dictionary from rating to list, in insertion order.
  \<open>buckets.setdefault(r, []).append(p)\<close>, \<open>buckets.get(r, [])\<close>, and the effect of popping
  from the list that \<open>buckets.get\<close> returned: the list stored under \<open>r\<close> is the popped
  one, and a rating with no bucket gets a fresh empty list that is not stored.
\<close>

type_synonym buckets = "(int \<times> problem list) list"

definition bucket_append :: "buckets \<Rightarrow> problem \<Rightarrow> buckets" where
  "bucket_append b p =
     (case map_of b (rating p) of
        None \<Rightarrow> b @ [(rating p, [p])]
      | Some ps \<Rightarrow> AList.update (rating p) (ps @ [p]) b)"

definition bucket_get :: "buckets \<Rightarrow> int \<Rightarrow> problem list" where
  "bucket_get b r = (case map_of b r of None \<Rightarrow> [] | Some ps \<Rightarrow> ps)"

definition bucket_set :: "buckets \<Rightarrow> int \<Rightarrow> problem list \<Rightarrow> buckets" where
  "bucket_set b r pool = (case map_of b r of None \<Rightarrow> b | Some _ \<Rightarrow> AList.update r pool b)"

definition details :: "constraints \<Rightarrow> detail list" where
  \<comment> \<open>lines 235 to 238\<close>
  "details C =
     (if distinct_contest C then [Distinct_contest] else [])
     @ (if distinct_tags C then [No_tag_repetition] else [])
     @ (if tag_caps C \<noteq> [] then [Tag_caps (tag_caps C)] else [])"

text \<open>The \<open>for r in ratings_ordered\<close> loop of lines 214 to 240.\<close>

fun pick_loop ::
  "constraints \<Rightarrow> buckets \<Rightarrow> sel_state \<Rightarrow> int list \<Rightarrow> sel_error + (buckets \<times> sel_state)" where
  "pick_loop C b st [] = Inr (b, st)"
| "pick_loop C b st (r # rs) =
     (case scan_pool C st (bucket_get b r) of
        (None, pool', st') \<Rightarrow> Inl (No_available_problem r (details C))
      | (Some chosen, pool', st') \<Rightarrow>
          pick_loop C (bucket_set b r pool') (st'\<lparr>picked := picked st' @ [chosen]\<rparr>) rs)"

text \<open>
  \<open>random\<close> is Python's library: the generator's state is a value of type \<open>'g\<close>,
  \<open>random.seed(s)\<close> is \<open>seed_rng s\<close> (the state it leaves depends on \<open>s\<close> alone), and
  \<open>random.shuffle(b)\<close> is \<open>shuffle g b\<close>, which returns the reordered list and the next
  state. Lines 197 and 198 shuffle the buckets in the dictionary's order.
\<close>

fun shuffle_all ::
  "('g \<Rightarrow> problem list \<Rightarrow> problem list \<times> 'g) \<Rightarrow> 'g \<Rightarrow> buckets \<Rightarrow> buckets \<times> 'g" where
  "shuffle_all shuffle g [] = ([], g)"
| "shuffle_all shuffle g ((r, ps) # b) =
     (let (ps', g') = shuffle g ps; (b', g'') = shuffle_all shuffle g' b
      in ((r, ps') # b', g''))"

definition make_buckets :: "problem list \<Rightarrow> (int \<times> string) set \<Rightarrow> buckets" where
  \<comment> \<open>lines 193 to 196\<close>
  "make_buckets candidates attempted_set =
     foldl bucket_append [] (filter (\<lambda>p. key p \<notin> attempted_set) candidates)"

text \<open>
  \<open>pick_strict_order\<close>, with the generator's state before the call as the last argument
  and its state after the call as the second component of the result.
\<close>

definition pick_strict_order ::
  "('s \<Rightarrow> 'g) \<Rightarrow> ('g \<Rightarrow> problem list \<Rightarrow> problem list \<times> 'g) \<Rightarrow>
   problem list \<Rightarrow> (int \<times> string) set \<Rightarrow> int list \<Rightarrow>
   bool \<Rightarrow> bool \<Rightarrow> (string \<times> int) list option \<Rightarrow> 's option \<Rightarrow> 'g \<Rightarrow>
   (sel_error + problem list) \<times> 'g" where
  "pick_strict_order seed_rng shuffle candidates attempted_set ratings_ordered
     dc dt tc seed g =
     (let g0 = (case seed of None \<Rightarrow> g | Some s \<Rightarrow> seed_rng s);
          C = \<lparr>distinct_contest = dc, distinct_tags = dt, tag_caps = caps_norm tc\<rparr>;
          (b, g1) = shuffle_all shuffle g0 (make_buckets candidates attempted_set)
      in (case pick_loop C b init_state ratings_ordered of
            Inl e \<Rightarrow> Inl e
          | Inr (b', st) \<Rightarrow> Inr (picked st), g1))"

text \<open>
  The message of the \<open>RuntimeError\<close> of line 239, which is all that the error carries:
  \<open>sel_error_text\<close> of the value \<open>No_available_problem r detail\<close>. \<open>str_int\<close> and
  \<open>repr_caps\<close> are Python's formatting of the integer \<open>r\<close> and of the dictionary
  \<open>tag_caps\<close> in the f-strings, \<open>join\<close> is \<open>str.join\<close>, and \<open>x or 'none'\<close> is
  \<open>none\<close> when \<open>x\<close> is the empty string.
\<close>

fun detail_text :: "((string \<times> int) list \<Rightarrow> string) \<Rightarrow> detail \<Rightarrow> string" where
  "detail_text repr_caps Distinct_contest = ''distinct contest''"
| "detail_text repr_caps No_tag_repetition = ''no tag repetition''"
| "detail_text repr_caps (Tag_caps d) = ''tag caps='' @ repr_caps d"

fun join :: "string \<Rightarrow> string list \<Rightarrow> string" where
  "join sep [] = []"
| "join sep [x] = x"
| "join sep (x # y # ys) = x @ sep @ join sep (y # ys)"

fun sel_error_text ::
  "(int \<Rightarrow> string) \<Rightarrow> ((string \<times> int) list \<Rightarrow> string) \<Rightarrow> sel_error \<Rightarrow> string" where
  "sel_error_text str_int repr_caps (No_available_problem r ds) =
     (let joined = join '', '' (map (detail_text repr_caps) ds)
      in ''No available problem for rating '' @ str_int r @ '' under constraints: ''
         @ (if joined = [] then ''none'' else joined) @ ''.'')"


section \<open>JSON values and Python conversions\<close>

text \<open>
  A Python float is a finite value, an infinity or NaN. The finite doubles are rationals;
  comparison and truncation are exact on them, and the conversions that round
  (\<open>float\<close> of an integer or of a string) are taken from the library, see \<open>pylib\<close>.
\<close>

datatype pyfloat = Finite rat | Pos_inf | Neg_inf | NaN

datatype json =
    JNull
  | JBool bool
  | JInt int
  | JFloat pyfloat
  | JStr string
  | JList "json list"
  | JObj "(string \<times> json) list"

text \<open>
  What Python's library does and the repository does not define: \<open>int(s)\<close> and
  \<open>float(s)\<close> of a string, \<open>float(n)\<close> of an integer (\<open>None\<close> where they raise), and
  \<open>str(v)\<close> of a value that is not a string.
\<close>

record pylib =
  int_of_str :: "string \<Rightarrow> int option"
  float_of_str :: "string \<Rightarrow> pyfloat option"
  float_of_int :: "int \<Rightarrow> pyfloat option"
  str_of :: "json \<Rightarrow> string"

fun truthy :: "json \<Rightarrow> bool" where
  "truthy JNull = False"
| "truthy (JBool b) = b"
| "truthy (JInt n) = (n \<noteq> 0)"
| "truthy (JFloat f) = (f \<noteq> Finite 0)"
| "truthy (JStr s) = (s \<noteq> [])"
| "truthy (JList xs) = (xs \<noteq> [])"
| "truthy (JObj d) = (d \<noteq> [])"

definition trunc :: "rat \<Rightarrow> int" where
  "trunc q = (if q \<ge> 0 then \<lfloor>q\<rfloor> else \<lceil>q\<rceil>)"

text \<open>\<open>int(v)\<close>, \<open>float(v)\<close> and \<open>str(v)\<close>; \<open>None\<close> where Python raises.\<close>

fun py_int :: "pylib \<Rightarrow> json \<Rightarrow> int option" where
  "py_int L (JInt n) = Some n"
| "py_int L (JBool b) = Some (if b then 1 else 0)"
| "py_int L (JFloat (Finite q)) = Some (trunc q)"
| "py_int L (JFloat f) = None"
| "py_int L (JStr s) = int_of_str L s"
| "py_int L v = None"

fun py_float :: "pylib \<Rightarrow> json \<Rightarrow> pyfloat option" where
  "py_float L (JFloat f) = Some f"
| "py_float L (JInt n) = float_of_int L n"
| "py_float L (JBool b) = Some (Finite (if b then 1 else 0))"
| "py_float L (JStr s) = float_of_str L s"
| "py_float L v = None"

fun py_str :: "pylib \<Rightarrow> json \<Rightarrow> string" where
  "py_str L (JStr s) = s"
| "py_str L v = str_of L v"

fun float_gt :: "pyfloat \<Rightarrow> pyfloat \<Rightarrow> bool" where
  "float_gt (Finite x) (Finite y) = (x > y)"
| "float_gt Pos_inf (Finite y) = True"
| "float_gt Pos_inf Neg_inf = True"
| "float_gt (Finite x) Neg_inf = True"
| "float_gt a b = False"

definition max_float :: "pyfloat \<Rightarrow> pyfloat \<Rightarrow> pyfloat" where
  \<comment> \<open>Python's \<open>max(a, b)\<close>: \<open>b\<close> when \<open>b > a\<close>, else \<open>a\<close>\<close>
  "max_float a b = (if float_gt b a then b else a)"

definition get_default :: "(string \<times> json) list \<Rightarrow> string \<Rightarrow> json \<Rightarrow> json" where
  \<comment> \<open>\<open>d.get(k, default)\<close>\<close>
  "get_default d k dflt = (case map_of d k of None \<Rightarrow> dflt | Some v \<Rightarrow> v)"


section \<open>The fetcher\<close>

definition API_HOSTS :: "string list" where
  "API_HOSTS = [''https://codeforces.com/api'', ''https://www.codeforces.com/api'']"

definition looks_like_html :: "string \<Rightarrow> bool" where
  "looks_like_html text =
     (let t = lower (lstrip text)
      in startswith t ''<!doctype html'' \<or> startswith t ''<html'')"

text \<open>
  What \<open>S.get\<close> does is the environment's: it raises a \<open>requests.RequestException\<close>, or
  returns a response with a \<open>content-type\<close> header (if any) and a body. \<open>r.json()\<close> is
  \<open>parse\<close> of the body, \<open>None\<close> where it raises the JSON decoding error.
\<close>

datatype http_result = Request_exception | Response "string option" string

text \<open>The exceptions caught at line 75, the values of \<open>last_err\<close>.\<close>

datatype caught = Request_failed | Json_decode_error | Waf_html | Api_failed string

text \<open>
  One pass through the body of the host loop (lines 60 to 79): \<open>Return\<close> is the
  \<open>return\<close> of line 68, \<open>Caught e\<close> the handler of line 75 (\<open>last_err = e\<close>, then
  \<open>continue\<close>), \<open>Pass\<close> the end of the \<open>try\<close> with nothing raised, and \<open>Crash\<close> an
  exception that line 75 does not catch (\<open>AttributeError\<close>, \<open>KeyError\<close>).
\<close>

datatype attempt = Return json | Caught caught | Pass | Crash

definition transient :: "string \<Rightarrow> bool" where
  "transient comment =
     list_ex (\<lambda>x. contains (lower comment) x)
       [''limit exceeded'', ''service unavailable'', ''please try again later'']"

definition comment_of :: "(string \<times> json) list \<Rightarrow> string option" where
  \<comment> \<open>\<open>(j.get("comment") or "").strip()\<close>; \<open>None\<close> when \<open>strip\<close> is not an attribute\<close>
  "comment_of d =
     (case map_of d ''comment'' of
        None \<Rightarrow> Some (strip [])
      | Some v \<Rightarrow> if \<not> truthy v then Some (strip [])
                  else (case v of JStr s \<Rightarrow> Some (strip s) | _ \<Rightarrow> None))"

definition try_host :: "(string \<Rightarrow> json option) \<Rightarrow> string \<Rightarrow> http_result \<Rightarrow> attempt" where
  "try_host parse path res =
     (case res of
        Request_exception \<Rightarrow> Caught Request_failed
      | Response ct body \<Rightarrow>
          let ctype = lower (case ct of None \<Rightarrow> [] | Some c \<Rightarrow> c)
          in if \<not> contains ctype ''application/json'' \<and> looks_like_html body
             then Caught Waf_html
             else (case parse body of
                     None \<Rightarrow> Caught Json_decode_error
                   | Some (JObj j) \<Rightarrow>
                       if map_of j ''status'' = Some (JStr ''OK'')
                       then (case map_of j ''result'' of None \<Rightarrow> Crash | Some v \<Rightarrow> Return v)
                       else (case comment_of j of
                               None \<Rightarrow> Crash
                             | Some comment \<Rightarrow>
                                 if \<not> transient comment
                                 then Caught (Api_failed
                                   (path @ '': '' @ (if comment = [] then ''FAILED'' else comment)))
                                 else Pass)
                   | Some _ \<Rightarrow> Crash))"

text \<open>
  The result of \<open>cf_get\<close>: the payload, the \<open>RuntimeError\<close> of line 81 with \<open>last_err\<close>,
  or an exception that was not caught.
\<close>

datatype fetch_result = Returned json | Exhausted "caught option" | Crashed

text \<open>
  The loop over the hosts (line 59) in round \<open>i\<close>, from host number \<open>k\<close> on.
  \<open>get i k url\<close> is what \<open>S.get\<close> does on the request for \<open>url\<close> made in round \<open>i\<close>
  to host number \<open>k\<close>. The result is \<open>Inl\<close> when the loop is left by \<open>return\<close> or by an
  exception, and \<open>Inr last_err\<close> when all hosts were tried.
\<close>

fun try_hosts ::
  "(string \<Rightarrow> json option) \<Rightarrow> (nat \<Rightarrow> nat \<Rightarrow> string \<Rightarrow> http_result) \<Rightarrow> string \<Rightarrow>
   nat \<Rightarrow> nat \<Rightarrow> string list \<Rightarrow> caught option \<Rightarrow> fetch_result + caught option" where
  "try_hosts parse get path i k [] last_err = Inr last_err"
| "try_hosts parse get path i k (base # hosts) last_err =
     (case try_host parse path (get i k (base @ ''/'' @ path)) of
        Return v \<Rightarrow> Inl (Returned v)
      | Crash \<Rightarrow> Inl Crashed
      | Caught e \<Rightarrow> try_hosts parse get path i (Suc k) hosts (Some e)
      | Pass \<Rightarrow> try_hosts parse get path i (Suc k) hosts last_err)"

text \<open>
  The loop over the rounds (line 57): \<open>n\<close> rounds are left and the next one is round
  \<open>i\<close>. The throttle of line 58 and the sleep of line 80 only take time.
\<close>

fun rounds ::
  "(string \<Rightarrow> json option) \<Rightarrow> (nat \<Rightarrow> nat \<Rightarrow> string \<Rightarrow> http_result) \<Rightarrow> string list \<Rightarrow>
   string \<Rightarrow> nat \<Rightarrow> nat \<Rightarrow> caught option \<Rightarrow> fetch_result" where
  "rounds parse get hosts path 0 i last_err = Exhausted last_err"
| "rounds parse get hosts path (Suc n) i last_err =
     (case try_hosts parse get path i 0 hosts last_err of
        Inl r \<Rightarrow> r
      | Inr last_err' \<Rightarrow> rounds parse get hosts path n (Suc i) last_err')"

definition cf_get ::
  "(string \<Rightarrow> json option) \<Rightarrow> (nat \<Rightarrow> nat \<Rightarrow> string \<Rightarrow> http_result) \<Rightarrow> string list \<Rightarrow>
   string \<Rightarrow> nat \<Rightarrow> fetch_result" where
  "cf_get parse get hosts path retries = rounds parse get hosts path retries 0 None"


section \<open>The configuration loader\<close>

definition TIMEOUT :: int where
  "TIMEOUT = 45"

definition PAGE_SIZE :: int where
  "PAGE_SIZE = 500"

definition RATE_MIN_INTERVAL :: pyfloat where
  \<comment> \<open>the double written \<open>2.2\<close>\<close>
  "RATE_MIN_INTERVAL = Finite (2476979795053773 / 1125899906842624)"

text \<open>
  How a call ends without a value: \<open>die(msg, code)\<close> prints the message and leaves the
  process with \<open>sys.exit(code)\<close>, which no handler of the file catches; any other
  exception that is not caught ends the process with a traceback.
\<close>

datatype abort = Sys_exit int string | Uncaught

definition die :: "string \<Rightarrow> int \<Rightarrow> abort + 'a" where
  "die msg code = Inl (Sys_exit code msg)"

text \<open>
  The dictionary that \<open>load_config\<close> returns. The fields are the dictionary's keys
  with the prefix \<open>cfg_\<close>.
\<close>

record config =
  cfg_handles :: "string list"
  cfg_ratings_list :: "int list"
  cfg_year_min :: int
  cfg_year_max :: int
  cfg_distinct_contest :: bool
  cfg_distinct_tags :: bool
  cfg_tag_caps :: "(string \<times> int) list"
  cfg_seed :: json
  cfg_prefer_ipv4 :: bool
  cfg_cookie_file :: json
  cfg_min_interval :: pyfloat
  cfg_verbose :: bool
  cfg_timeout :: int
  cfg_page_size :: int
  cfg_api_hosts :: "json list option"
  cfg_max_pages_per_user :: "int option"
  cfg_exclude_name_patterns :: "string list"
  cfg_exclude_contest_ids :: "int list"

definition quoted :: "string \<Rightarrow> string" where
  "quoted k = [CHR 0x27] @ k @ [CHR 0x27]"

text \<open>The loop of lines 292 to 300, with \<open>_caps\<close> as accumulator.\<close>

fun validate_tag_caps ::
  "pylib \<Rightarrow> (string \<times> json) list \<Rightarrow> (string \<times> int) list \<Rightarrow> abort + (string \<times> int) list" where
  "validate_tag_caps L [] caps = Inr caps"
| "validate_tag_caps L ((k, v) # items) caps =
     (case py_int L v of
        None \<Rightarrow> die (''Config: tag_caps['' @ quoted k @ ''] must be an integer >= 1.'') 2
      | Some cap \<Rightarrow>
          if cap < 1 then die (''Config: tag_caps['' @ quoted k @ ''] must be >= 1.'') 2
          else validate_tag_caps L items (AList.update (lower k) cap caps))"

definition validate_max_pages :: "pylib \<Rightarrow> json \<Rightarrow> abort + int option" where
  \<comment> \<open>lines 302 to 308\<close>
  "validate_max_pages L v =
     (if v = JNull then Inr None
      else (case py_int L v of
              None \<Rightarrow> die ''Config: 'max_pages_per_user' must be an integer.'' 2
            | Some n \<Rightarrow> if n < 1 then die ''Config: 'max_pages_per_user' must be >= 1.'' 2
                        else Inr (Some n)))"

definition stripped_nonempty :: "pylib \<Rightarrow> json list \<Rightarrow> string list" where
  \<comment> \<open>\<open>[str(s).strip() for s in xs if str(s).strip()]\<close>\<close>
  "stripped_nonempty L xs = filter (\<lambda>s. s \<noteq> []) (map (\<lambda>v. strip (py_str L v)) xs)"

fun nonempty_list :: "json option \<Rightarrow> bool" where
  "nonempty_list (Some (JList xs)) = (xs \<noteq> [])"
| "nonempty_list v = False"

fun int_value :: "json option \<Rightarrow> int option" where
  \<comment> \<open>the value of an instance of \<open>int\<close> (\<open>bool\<close> is a subclass of \<open>int\<close>)\<close>
  "int_value (Some (JInt n)) = Some n"
| "int_value (Some (JBool b)) = Some (if b then 1 else 0)"
| "int_value v = None"

text \<open>
  The three conversions of lines 274, 277 and 278, which raise where \<open>float\<close> or \<open>int\<close>
  does.
\<close>

definition read_numbers :: "pylib \<Rightarrow> (string \<times> json) list \<Rightarrow> abort + (pyfloat \<times> int \<times> int)" where
  "read_numbers L cfg =
     (case py_float L (get_default cfg ''min_interval'' (JFloat RATE_MIN_INTERVAL)) of
        None \<Rightarrow> Inl Uncaught
      | Some min_interval \<Rightarrow>
          (case py_int L (get_default cfg ''timeout'' (JInt TIMEOUT)) of
             None \<Rightarrow> Inl Uncaught
           | Some timeout \<Rightarrow>
               (case py_int L (get_default cfg ''page_size'' (JInt PAGE_SIZE)) of
                  None \<Rightarrow> Inl Uncaught
                | Some page_size \<Rightarrow> Inr (min_interval, timeout, page_size))))"

text \<open>Lines 254 to 265: the required fields.\<close>

definition check_required :: "(string \<times> json) list \<Rightarrow> abort + (json list \<times> json list \<times> int \<times> int)" where
  "check_required cfg =
     (if \<not> nonempty_list (map_of cfg ''handles'')
      then die ''Config: 'handles' must be a non-empty list.'' 2
      else if \<not> nonempty_list (map_of cfg ''ratings'')
      then die ''Config: 'ratings' must be a non-empty list of ints.'' 2
      else (case (map_of cfg ''handles'', map_of cfg ''ratings'',
                  int_value (map_of cfg ''year_min''), int_value (map_of cfg ''year_max'')) of
              (Some (JList hs), Some (JList rs), Some year_min, Some year_max) \<Rightarrow>
                if year_min > year_max
                then die ''Config: 'year_min' cannot be greater than 'year_max'.'' 2
                else Inr (hs, rs, year_min, year_max)
            | _ \<Rightarrow> die ''Config: 'year_min' and 'year_max' must be integers.'' 2))"

text \<open>Lines 310 to 320: the exclusion lists.\<close>

definition validate_exclusions ::
  "pylib \<Rightarrow> (string \<times> json) list \<Rightarrow> abort + (string list \<times> int list)" where
  "validate_exclusions L cfg =
     (case get_default cfg ''exclude_contest_name_patterns'' (JList []) of
        JList pats \<Rightarrow>
          (case get_default cfg ''exclude_contest_ids'' (JList []) of
             JList ids \<Rightarrow>
               (case those (map (py_int L) ids) of
                  None \<Rightarrow> die ''Config: 'exclude_contest_ids' must contain integers.'' 2
                | Some ns \<Rightarrow> Inr (stripped_nonempty L pats, ns))
           | _ \<Rightarrow> die ''Config: 'exclude_contest_ids' must be a list of integers.'' 2)
      | _ \<Rightarrow> die ''Config: 'exclude_contest_name_patterns' must be a list of strings.'' 2)"

text \<open>
  The steps of \<open>load_config\<close> that come before the validation of \<open>tag_caps\<close>
  (lines 254 to 291): the required fields, the three conversions, and the test that
  \<open>tag_caps\<close> is a dictionary. The update of the session's \<open>User-Agent\<close> header at line
  287 does not show in the result.
\<close>

definition before_tag_caps ::
  "pylib \<Rightarrow> (string \<times> json) list \<Rightarrow>
   abort + ((json list \<times> json list \<times> int \<times> int) \<times> (pyfloat \<times> int \<times> int) \<times> (string \<times> json) list)" where
  "before_tag_caps L cfg =
     (case check_required cfg of
        Inl a \<Rightarrow> Inl a
      | Inr req \<Rightarrow>
          (case read_numbers L cfg of
             Inl a \<Rightarrow> Inl a
           | Inr nums \<Rightarrow>
               (case get_default cfg ''tag_caps'' (JObj []) of
                  JObj items \<Rightarrow> Inr (req, nums, items)
                | _ \<Rightarrow> die ''Config: 'tag_caps' must be an object/dict of {tag: max_allowed}.'' 2)))"

text \<open>
  \<open>load_config\<close> on the document read from \<open>path\<close>: \<open>Inl e\<close> when opening or parsing
  the file raised \<open>e\<close>, \<open>Inr cfg\<close> the parsed document.
\<close>

definition load_config :: "pylib \<Rightarrow> string \<Rightarrow> string + json \<Rightarrow> abort + config" where
  "load_config L path doc =
     (case doc of
        Inl e \<Rightarrow> die (''Failed to read config '' @ quoted path @ '': '' @ e) 2
      | Inr (JObj cfg) \<Rightarrow>
          (case before_tag_caps L cfg of
             Inl a \<Rightarrow> Inl a
           | Inr ((hs, rs, year_min, year_max), (min_interval, timeout, page_size), items) \<Rightarrow>
               (case validate_tag_caps L items [] of
                  Inl a \<Rightarrow> Inl a
                | Inr caps \<Rightarrow>
                    (case validate_max_pages L (get_default cfg ''max_pages_per_user'' JNull) of
                       Inl a \<Rightarrow> Inl a
                     | Inr max_pages \<Rightarrow>
                         (case validate_exclusions L cfg of
                            Inl a \<Rightarrow> Inl a
                          | Inr (pats, ids) \<Rightarrow>
                              (case those (map (py_int L) rs) of
                                 None \<Rightarrow> Inl Uncaught
                               | Some ratings \<Rightarrow>
                                   Inr \<lparr>cfg_handles = stripped_nonempty L hs,
                                        cfg_ratings_list = ratings,
                                        cfg_year_min = year_min,
                                        cfg_year_max = year_max,
                                        cfg_distinct_contest =
                                          truthy (get_default cfg ''distinct_contest'' (JBool False)),
                                        cfg_distinct_tags =
                                          truthy (get_default cfg ''distinct_tags'' (JBool False)),
                                        cfg_tag_caps = caps,
                                        cfg_seed = get_default cfg ''seed'' JNull,
                                        cfg_prefer_ipv4 =
                                          truthy (get_default cfg ''prefer_ipv4'' (JBool False)),
                                        cfg_cookie_file = get_default cfg ''cookie_file'' JNull,
                                        cfg_min_interval = max_float (Finite 0) min_interval,
                                        cfg_verbose =
                                          truthy (get_default cfg ''verbose'' (JBool False)),
                                        cfg_timeout = max 5 timeout,
                                        cfg_page_size = max 100 (min 1000 page_size),
                                        cfg_api_hosts =
                                          (case map_of cfg ''api_hosts'' of
                                             Some (JList (h # hosts)) \<Rightarrow> Some (h # hosts)
                                           | _ \<Rightarrow> None),
                                        cfg_max_pages_per_user = max_pages,
                                        cfg_exclude_name_patterns = pats,
                                        cfg_exclude_contest_ids = ids\<rparr>)))))
      | Inr _ \<Rightarrow> Inl Uncaught)"


section \<open>Notions used in the statements\<close>



text \<open>\<open>random.shuffle\<close> reorders a list: it returns a permutation of it.\<close>

definition permuting :: "('g \<Rightarrow> problem list \<Rightarrow> problem list \<times> 'g) \<Rightarrow> bool" where
  "permuting shuffle \<longleftrightarrow> (\<forall>g xs. mset (fst (shuffle g xs)) = mset xs)"

text \<open>Every problem of a bucket has the bucket's rating and satisfies \<open>P\<close>.\<close>

definition buckets_ok :: "(problem \<Rightarrow> bool) \<Rightarrow> buckets \<Rightarrow> bool" where
  "buckets_ok P b \<longleftrightarrow> (\<forall>(r, ps) \<in> set b. \<forall>p \<in> set ps. rating p = r \<and> P p)"


text \<open>The test of line 64 on the \<open>content-type\<close> header: it marks the body as JSON.\<close>

definition json_ctype :: "string option \<Rightarrow> bool" where
  "json_ctype ct = contains (lower (case ct of None \<Rightarrow> [] | Some c \<Rightarrow> c)) ''application/json''"

text \<open>
  A \<open>tag_caps\<close> value that \<open>load_config\<close> does not accept: \<open>int\<close> raises on it, or the
  integer is below 1; and the message of the \<open>die\<close> of line 297 or 299 for the entry
  \<open>(k, v)\<close>.
\<close>

definition bad_cap :: "pylib \<Rightarrow> json \<Rightarrow> bool" where
  "bad_cap L v = (case py_int L v of None \<Rightarrow> True | Some cap \<Rightarrow> cap < 1)"

definition tag_cap_message :: "pylib \<Rightarrow> string \<Rightarrow> json \<Rightarrow> string" where
  "tag_cap_message L k v =
     ''Config: tag_caps['' @ quoted k @
       (case py_int L v of None \<Rightarrow> ''] must be an integer >= 1.'' | Some cap \<Rightarrow> ''] must be >= 1.'')"



section \<open>Example data\<close>

text \<open>
  A generator whose state is a counter: \<open>shuffle\<close> rotates the list by the counter and
  increments it, and \<open>seed\<close> sets the counter.
\<close>

definition rot_shuffle :: "nat \<Rightarrow> problem list \<Rightarrow> problem list \<times> nat" where
  "rot_shuffle g xs = (rotate g xs, Suc g)"

definition nat_seed :: "int \<Rightarrow> nat" where
  "nat_seed s = nat \<bar>s\<bar>"

text \<open>
  The decimal digits of an integer, which is what \<open>str\<close> and an f-string make of it,
  and the \<open>repr\<close> of a dictionary from strings without quotes or escapes to integers.
\<close>

function decimal :: "nat \<Rightarrow> string" where
  "decimal n = (if n < 10 then [char_of (48 + n)] else decimal (n div 10) @ [char_of (48 + n mod 10)])"
  by pat_completeness auto
termination
  by (relation "measure id") auto

declare decimal.simps [simp del]

definition decimal_int :: "int \<Rightarrow> string" where
  "decimal_int i = (if i < 0 then ''-'' @ decimal (nat (- i)) else decimal (nat i))"

definition braces_caps :: "(string \<times> int) list \<Rightarrow> string" where
  "braces_caps d = ''{'' @ join '', '' (map (\<lambda>(k, v). quoted k @ '': '' @ decimal_int v) d) @ ''}''"

text \<open>Four problems: three of rating 1200, two of them of the same contest, and one of 1300.\<close>

definition pA :: problem where
  "pA = \<lparr>contestId = 1, index = ''A'', rating = 1200, name = ''Watermelon'', tags = [''Math'', ''dp'']\<rparr>"

definition pB :: problem where
  "pB = \<lparr>contestId = 1, index = ''B'', rating = 1200, name = ''Queue'', tags = [''greedy'']\<rparr>"

definition pC :: problem where
  "pC = \<lparr>contestId = 2, index = ''A'', rating = 1200, name = ''Stones'', tags = [''DP'']\<rparr>"

definition pD :: problem where
  "pD = \<lparr>contestId = 3, index = ''C'', rating = 1300, name = ''Trees'', tags = [''graphs'']\<rparr>"

text \<open>
  Two envelopes of the API, a \<open>r.json()\<close> that knows the two bodies they come in, and
  two environments: one that reports an unknown handle on every request but the last
  of the fourth round, and one that answers the first round with a challenge page.
\<close>

definition not_found_envelope :: json where
  "not_found_envelope =
     JObj [(''status'', JStr ''FAILED''),
           (''comment'', JStr ''handle: User with handle nosuchuser123 not found'')]"

definition ok_envelope :: json where
  "ok_envelope = JObj [(''status'', JStr ''OK''), (''result'', JList [JInt 7])]"

definition demo_parse :: "string \<Rightarrow> json option" where
  "demo_parse body = map_of [(''not-found'', not_found_envelope), (''ok'', ok_envelope)] body"

definition json_response :: "string \<Rightarrow> http_result" where
  "json_response body = Response (Some ''application/json; charset=utf-8'') body"

definition last_attempt_ok :: "nat \<Rightarrow> nat \<Rightarrow> string \<Rightarrow> http_result" where
  "last_attempt_ok i k url =
     (if i = 3 \<and> k = 1 then json_response ''ok'' else json_response ''not-found'')"

definition waf_then_ok :: "nat \<Rightarrow> nat \<Rightarrow> string \<Rightarrow> http_result" where
  "waf_then_ok i k url =
     (if i = 0 then Response (Some ''text/html'') ''  <HTML lang=en><body>Just a moment</body></html>''
      else json_response ''ok'')"

text \<open>
  A library whose \<open>int\<close> and \<open>float\<close> reject every string, and two configurations: one
  with numbers out of range, one with a cap of 0 and a cap that is \<open>null\<close>.
\<close>

definition demo_lib :: pylib where
  "demo_lib = \<lparr>int_of_str = (\<lambda>s. None), float_of_str = (\<lambda>s. None),
                float_of_int = (\<lambda>n. Some (Finite (of_int n))), str_of = (\<lambda>v. [])\<rparr>"


definition bad_caps_cfg :: "(string \<times> json) list" where
  "bad_caps_cfg =
     [(''handles'', JList [JStr ''tourist'']),
      (''ratings'', JList [JInt 1200]),
      (''year_min'', JInt 2015),
      (''year_max'', JInt 2020),
      (''tag_caps'', JObj [(''dp'', JInt 2), (''Strings'', JInt 0), (''math'', JNull)])]"


section \<open>Properties of the selector\<close>

subsection \<open>The scan of a pool\<close>

lemma scan_pool_Some:
  "scan_pool C st pool = (Some c, pool', st') \<Longrightarrow>
     c \<in> set pool \<and> \<not> rejected C st c \<and> st' = accept C st c \<and> set pool' \<subseteq> set pool"
proof (induction C st pool rule: scan_pool.induct)
  case (1 C st pool)
  show ?case
  proof (cases "pool = []")
    case True
    with "1.prems" show ?thesis by (simp add: scan_pool.simps)
  next
    case False
    note ne = this
    show ?thesis
    proof (cases "rejected C st (last pool)")
      case True
      with ne "1.prems" have "scan_pool C st (butlast pool) = (Some c, pool', st')"
        by (simp add: scan_pool.simps [of C st pool] Let_def)
      from "1.IH" [OF ne refl refl True this]
      show ?thesis by (auto dest: in_set_butlastD)
    next
      case False
      with ne "1.prems" show ?thesis
        by (auto simp: scan_pool.simps [of C st pool] Let_def dest: in_set_butlastD)
    qed
  qed
qed

lemma scan_pool_None:
  "scan_pool C st pool = (None, pool', st') \<Longrightarrow>
     st' = st \<and> pool' = [] \<and> (\<forall>c \<in> set pool. rejected C st c)"
proof (induction C st pool rule: scan_pool.induct)
  case (1 C st pool)
  show ?case
  proof (cases "pool = []")
    case True
    with "1.prems" show ?thesis by (simp add: scan_pool.simps)
  next
    case False
    note ne = this
    show ?thesis
    proof (cases "rejected C st (last pool)")
      case True
      with ne "1.prems" have "scan_pool C st (butlast pool) = (None, pool', st')"
        by (simp add: scan_pool.simps [of C st pool] Let_def)
      from "1.IH" [OF ne refl refl True this]
      have a: "st' = st" "pool' = []" "\<forall>c \<in> set (butlast pool). rejected C st c" by auto
      have "set pool = insert (last pool) (set (butlast pool))"
        using ne by (metis append_butlast_last_id list.simps(15) rotate1.simps(2) set_rotate1)
      with a True show ?thesis by auto
    next
      case False
      with ne "1.prems" show ?thesis
        by (auto simp: scan_pool.simps [of C st pool] Let_def)
    qed
  qed
qed

lemma scan_pool_all_rejected:
  "\<forall>c \<in> set pool. rejected C st c \<Longrightarrow> scan_pool C st pool = (None, [], st)"
proof (induction C st pool rule: scan_pool.induct)
  case (1 C st pool)
  show ?case
  proof (cases "pool = []")
    case True
    then show ?thesis by (simp add: scan_pool.simps)
  next
    case False
    then have r: "rejected C st (last pool)" using "1.prems" by simp
    have "\<forall>c \<in> set (butlast pool). rejected C st c"
      using "1.prems" by (auto dest: in_set_butlastD)
    from "1.IH" [OF False refl refl r this] False r
    show ?thesis by (simp add: scan_pool.simps [of C st pool] Let_def)
  qed
qed

subsection \<open>The invariant of the selection loop\<close>



lemma set_update_subset: "set (AList.update k v al) \<subseteq> insert (k, v) (set al)"
  by (induction al) auto







subsection \<open>Buckets\<close>

lemma buckets_ok_get: "buckets_ok P b \<Longrightarrow> p \<in> set (bucket_get b r) \<Longrightarrow> rating p = r \<and> P p"
proof -
  assume ok: "buckets_ok P b" and p: "p \<in> set (bucket_get b r)"
  from p obtain ps where "map_of b r = Some ps" "p \<in> set ps"
    by (cases "map_of b r") (auto simp: bucket_get_def)
  then have "(r, ps) \<in> set b" "p \<in> set ps" by (auto dest: map_of_SomeD)
  with ok show ?thesis by (auto simp: buckets_ok_def)
qed

lemma buckets_ok_update:
  "buckets_ok P b \<Longrightarrow> \<forall>p \<in> set ps. rating p = r \<and> P p \<Longrightarrow> buckets_ok P (AList.update r ps b)"
  using set_update_subset [of r ps b] by (fastforce simp: buckets_ok_def)

lemma buckets_ok_set:
  "buckets_ok P b \<Longrightarrow> set pool \<subseteq> set (bucket_get b r) \<Longrightarrow> buckets_ok P (bucket_set b r pool)"
  unfolding bucket_set_def
  by (auto split: option.splits intro!: buckets_ok_update dest: buckets_ok_get)

lemma buckets_ok_append: "buckets_ok P b \<Longrightarrow> P p \<Longrightarrow> buckets_ok P (bucket_append b p)"
  unfolding bucket_append_def
proof (cases "map_of b (rating p)")
  case None
  assume "buckets_ok P b" "P p"
  then show "buckets_ok P (case map_of b (rating p) of None \<Rightarrow> b @ [(rating p, [p])]
      | Some ps \<Rightarrow> AList.update (rating p) (ps @ [p]) b)"
    using None by (auto simp: buckets_ok_def)
next
  case (Some ps)
  assume a: "buckets_ok P b" "P p"
  have "\<forall>q \<in> set (ps @ [p]). rating q = rating p \<and> P q"
    using a Some by (auto simp: buckets_ok_def dest!: map_of_SomeD)
  then show "buckets_ok P (case map_of b (rating p) of None \<Rightarrow> b @ [(rating p, [p])]
      | Some ps \<Rightarrow> AList.update (rating p) (ps @ [p]) b)"
    using Some a by (simp add: buckets_ok_update)
qed

lemma buckets_ok_foldl:
  "buckets_ok P b \<Longrightarrow> \<forall>p \<in> set ps. P p \<Longrightarrow> buckets_ok P (foldl bucket_append b ps)"
  by (induction ps arbitrary: b) (auto intro: buckets_ok_append)

lemma buckets_ok_make:
  "buckets_ok (\<lambda>p. key p \<notin> attempted_set) (make_buckets candidates attempted_set)"
  unfolding make_buckets_def
  by (rule buckets_ok_foldl) (auto simp: buckets_ok_def)

lemma buckets_ok_shuffle_all:
  "permuting shuffle \<Longrightarrow> buckets_ok P b \<Longrightarrow> buckets_ok P (fst (shuffle_all shuffle g b))"
proof (induction b arbitrary: g)
  case Nil
  then show ?case by simp
next
  case (Cons a b)
  obtain r ps where a: "a = (r, ps)" by (cases a)
  obtain ps' g' where s: "shuffle g ps = (ps', g')" by (cases "shuffle g ps")
  obtain b' g'' where t: "shuffle_all shuffle g' b = (b', g'')" by (cases "shuffle_all shuffle g' b")
  have "mset ps' = mset ps" using Cons.prems(1) s by (metis fst_conv permuting_def)
  then have e: "set ps' = set ps" by (rule mset_eq_setD)
  have "buckets_ok P b" using Cons.prems(2) by (simp add: buckets_ok_def)
  from Cons.IH [OF Cons.prems(1) this, of g'] have "buckets_ok P b'" by (simp add: t)
  then show ?case using Cons.prems(2) e by (simp add: a s t buckets_ok_def)
qed

lemma picked_accept: "picked (accept C st c) = picked st"
  by (simp add: accept_def)

lemma pick_loop_picked:
  "pick_loop C b st rs = Inr (b', st') \<Longrightarrow> buckets_ok P b \<Longrightarrow>
     \<exists>new. picked st' = picked st @ new \<and> map rating new = rs \<and> (\<forall>p \<in> set new. P p)"
proof (induction rs arbitrary: b st)
  case Nil
  then show ?case by simp
next
  case (Cons r rs)
  obtain ch pool' st1 where sp: "scan_pool C st (bucket_get b r) = (ch, pool', st1)"
    by (cases "scan_pool C st (bucket_get b r)")
  with Cons.prems obtain c where ch: "ch = Some c" by (cases ch) auto
  from scan_pool_Some [OF sp [unfolded ch]]
  have c: "c \<in> set (bucket_get b r)" and st1: "st1 = accept C st c"
    and sub: "set pool' \<subseteq> set (bucket_get b r)" by auto
  have ok: "buckets_ok P (bucket_set b r pool')" by (rule buckets_ok_set [OF Cons.prems(2) sub])
  have run: "pick_loop C (bucket_set b r pool') (st1\<lparr>picked := picked st1 @ [c]\<rparr>) rs = Inr (b', st')"
    using Cons.prems(1) sp ch by simp
  from Cons.IH [OF run ok] obtain new where
    n: "picked st' = picked st @ [c] @ new" "map rating new = rs" "\<forall>p \<in> set new. P p"
    by (auto simp: st1 picked_accept)
  have "rating c = r \<and> P c" by (rule buckets_ok_get [OF Cons.prems(2) c])
  with n show ?case by (intro exI [of _ "c # new"]) simp
qed

lemma pick_strict_order_Inr:
  assumes "fst (pick_strict_order seed_rng shuffle candidates attempted_set ratings_ordered
             dc dt tc seed g) = Inr picks"
  obtains b' st where
    "pick_loop \<lparr>distinct_contest = dc, distinct_tags = dt, tag_caps = caps_norm tc\<rparr>
       (fst (shuffle_all shuffle (case seed of None \<Rightarrow> g | Some s \<Rightarrow> seed_rng s)
               (make_buckets candidates attempted_set)))
       init_state ratings_ordered = Inr (b', st)" "picks = picked st"
  using assms unfolding pick_strict_order_def Let_def
  by (auto split: prod.splits sum.splits)

lemma mset_rotate1: "mset (rotate1 xs) = mset xs"
  by (cases xs) simp_all

lemma mset_rotate: "mset (rotate n xs) = mset xs"
  by (induction n) (simp_all add: mset_rotate1)

lemma permuting_rot: "permuting rot_shuffle"
  by (simp add: permuting_def rot_shuffle_def mset_rotate)




lemma caps_norm_filter_aux:
  "foldl (\<lambda>d (k, v). if v \<ge> 1 then AList.update (lower k) v d else d) d (filter (\<lambda>(k, v). v \<ge> 1) items)
   = foldl (\<lambda>d (k, v). if v \<ge> (1::int) then AList.update (lower k) v d else d) d items"
  by (induction items arbitrary: d) auto

lemma caps_norm_filter: "caps_norm (Some (filter (\<lambda>(k, v). v \<ge> 1) items)) = caps_norm (Some items)"
  by (simp add: caps_norm_def caps_norm_filter_aux)

lemma pick_loop_append:
  "pick_loop C b st (rs1 @ rs2) =
     (case pick_loop C b st rs1 of Inl e \<Rightarrow> Inl e | Inr (b1, st1) \<Rightarrow> pick_loop C b1 st1 rs2)"
  by (induction rs1 arbitrary: b st) (auto split: prod.splits option.splits)


lemma details_lists_constraints:
  "(Distinct_contest \<in> set (details C) \<longleftrightarrow> distinct_contest C)
   \<and> (No_tag_repetition \<in> set (details C) \<longleftrightarrow> distinct_tags C)
   \<and> (Tag_caps d \<in> set (details C) \<longleftrightarrow> tag_caps C \<noteq> [] \<and> d = tag_caps C)"
  by (auto simp: details_def)

subsection \<open>The message of the selection error\<close>

lemma join_nonempty: "xs \<noteq> [] \<Longrightarrow> hd xs \<noteq> [] \<Longrightarrow> join sep xs \<noteq> []"
proof (cases xs)
  case Nil
  assume "xs \<noteq> []"
  with Nil show ?thesis by simp
next
  case (Cons y ys)
  assume "hd xs \<noteq> []"
  with Cons show ?thesis by (cases ys) simp_all
qed

lemma sublist_join: "x \<in> set xs \<Longrightarrow> sublist x (join sep xs)"
proof (induction sep xs rule: join.induct)
  case (1 sep)
  then show ?case by simp
next
  case (2 sep y)
  then show ?case by simp
next
  case (3 sep y z zs)
  show ?case
  proof (cases "x = y")
    case True
    then show ?thesis by (simp add: sublist_append_rightI)
  next
    case False
    with 3 have "sublist x (join sep (z # zs))" by simp
    then obtain ps ss where "join sep (z # zs) = ps @ x @ ss"
      by (auto simp: sublist_def)
    then have "join sep (y # z # zs) = (y @ sep @ ps) @ x @ ss" by simp
    then show ?thesis unfolding sublist_def by blast
  qed
qed

lemma map_detail_text_details:
  "map (detail_text repr_caps) (details C)
     = (if distinct_contest C then [''distinct contest''] else [])
       @ (if distinct_tags C then [''no tag repetition''] else [])
       @ (if tag_caps C \<noteq> [] then [''tag caps='' @ repr_caps (tag_caps C)] else [])"
  by (simp add: details_def)

lemma sel_error_text_details:
  "sel_error_text str_int repr_caps (No_available_problem r (details C))
     = ''No available problem for rating '' @ str_int r @ '' under constraints: ''
       @ (if \<not> distinct_contest C \<and> \<not> distinct_tags C \<and> tag_caps C = [] then ''none''
          else join '', ''
                 ((if distinct_contest C then [''distinct contest''] else [])
                  @ (if distinct_tags C then [''no tag repetition''] else [])
                  @ (if tag_caps C \<noteq> [] then [''tag caps='' @ repr_caps (tag_caps C)] else [])))
       @ ''.''"
proof (cases "\<not> distinct_contest C \<and> \<not> distinct_tags C \<and> tag_caps C = []")
  case True
  then show ?thesis by (simp add: map_detail_text_details)
next
  case False
  let ?xs = "map (detail_text repr_caps) (details C)"
  have "?xs \<noteq> []" "hd ?xs \<noteq> []" using False by (auto simp: map_detail_text_details)
  then have "join '', '' ?xs \<noteq> []" by (rule join_nonempty)
  then show ?thesis
    using False unfolding sel_error_text.simps Let_def
    by (simp add: map_detail_text_details)
qed

lemma sel_error_text_names:
  "sublist (str_int r) (sel_error_text str_int repr_caps (No_available_problem r (details C)))"
  "distinct_contest C \<Longrightarrow>
     sublist ''distinct contest''
       (sel_error_text str_int repr_caps (No_available_problem r (details C)))"
  "distinct_tags C \<Longrightarrow>
     sublist ''no tag repetition''
       (sel_error_text str_int repr_caps (No_available_problem r (details C)))"
  "tag_caps C \<noteq> [] \<Longrightarrow>
     sublist (''tag caps='' @ repr_caps (tag_caps C))
       (sel_error_text str_int repr_caps (No_available_problem r (details C)))"
proof -
  let ?xs = "map (detail_text repr_caps) (details C)"
  let ?j = "join '', '' ?xs"
  have msg: "sel_error_text str_int repr_caps (No_available_problem r (details C))
      = ''No available problem for rating '' @ str_int r
        @ ('' under constraints: '' @ (if ?j = [] then ''none'' else ?j) @ ''.'')"
    by (simp add: Let_def)
  show "sublist (str_int r) (sel_error_text str_int repr_caps (No_available_problem r (details C)))"
    unfolding msg by (rule sublist_appendI)
  have inner: "sublist x (sel_error_text str_int repr_caps (No_available_problem r (details C)))"
    if "x \<in> set ?xs" "x \<noteq> []" for x
  proof -
    have s: "sublist x ?j" by (rule sublist_join [OF that(1)])
    with that(2) have "?j \<noteq> []" by auto
    then have "sel_error_text str_int repr_caps (No_available_problem r (details C))
        = (''No available problem for rating '' @ str_int r @ '' under constraints: '') @ ?j @ ''.''"
      by (simp add: Let_def)
    moreover from s obtain ps ss where "?j = ps @ x @ ss" by (auto simp: sublist_def)
    ultimately have "sel_error_text str_int repr_caps (No_available_problem r (details C))
        = ((''No available problem for rating '' @ str_int r @ '' under constraints: '') @ ps)
          @ x @ (ss @ ''.'')"
      by simp
    then show ?thesis unfolding sublist_def by blast
  qed
  show "sublist ''distinct contest''
       (sel_error_text str_int repr_caps (No_available_problem r (details C)))"
    if "distinct_contest C"
    using that by (intro inner) (simp_all add: map_detail_text_details)
  show "sublist ''no tag repetition''
       (sel_error_text str_int repr_caps (No_available_problem r (details C)))"
    if "distinct_tags C"
    using that by (intro inner) (simp_all add: map_detail_text_details)
  show "sublist (''tag caps='' @ repr_caps (tag_caps C))
       (sel_error_text str_int repr_caps (No_available_problem r (details C)))"
    if "tag_caps C \<noteq> []"
    using that by (intro inner) (simp_all add: map_detail_text_details)
qed

subsection \<open>The claims about the selector\<close>



text \<open>
  Claim C2. For every candidate list and attempted set, the key of every problem that
  \<open>pick_strict_order\<close> returns is not in the attempted set.
\<close>

theorem picks_not_attempted:
  assumes "permuting shuffle"
    and "fst (pick_strict_order seed_rng shuffle candidates attempted_set ratings_ordered
             dc dt tc seed g) = Inr picks"
  shows "\<forall>p \<in> set picks. key p \<notin> attempted_set"
proof -
  from assms(2) obtain b' st where
    run: "pick_loop \<lparr>distinct_contest = dc, distinct_tags = dt, tag_caps = caps_norm tc\<rparr>
       (fst (shuffle_all shuffle (case seed of None \<Rightarrow> g | Some s \<Rightarrow> seed_rng s)
               (make_buckets candidates attempted_set)))
       init_state ratings_ordered = Inr (b', st)" and p: "picks = picked st"
    by (rule pick_strict_order_Inr)
  have "buckets_ok (\<lambda>p. key p \<notin> attempted_set)
     (fst (shuffle_all shuffle (case seed of None \<Rightarrow> g | Some s \<Rightarrow> seed_rng s)
               (make_buckets candidates attempted_set)))"
    by (rule buckets_ok_shuffle_all [OF assms(1) buckets_ok_make])
  from pick_loop_picked [OF run this] show ?thesis
    by (auto simp: p init_state_def)
qed

theorem picks_not_attempted_witness:
  "permuting rot_shuffle
   \<and> fst (pick_strict_order nat_seed rot_shuffle [pA, pB, pC, pD] {(1, ''B'')} [1200, 1300, 1200]
         True False (Some [(''DP'', 2)]) (Some 7) 0) = Inr [pA, pD, pC]
   \<and> pA \<in> set [pA, pD, pC] \<and> key pA \<notin> {(1, ''B'')}
   \<and> pD \<in> set [pA, pD, pC] \<and> key pD \<notin> {(1, ''B'')}
   \<and> pC \<in> set [pA, pD, pC] \<and> key pC \<notin> {(1, ''B'')}"
proof -
  have h: "fst (pick_strict_order nat_seed rot_shuffle [pA, pB, pC, pD] {(1, ''B'')} [1200, 1300, 1200]
         True False (Some [(''DP'', 2)]) (Some 7) 0) = Inr [pA, pD, pC]"
    by code_simp
  from picks_not_attempted [OF permuting_rot h] h permuting_rot show ?thesis by simp
qed

text \<open>
  Claim C3. Under a seed that is not \<open>None\<close>, \<open>pick_strict_order\<close> is a function of its
  arguments alone: the state of the generator before the call has no influence on the
  picks, on the failure, or on the state the generator is left in. Two calls with the
  same arguments therefore end the same way.
\<close>

theorem seeded_run_ignores_generator_state:
  "pick_strict_order seed_rng shuffle candidates attempted_set ratings_ordered dc dt tc (Some s) g
   = pick_strict_order seed_rng shuffle candidates attempted_set ratings_ordered dc dt tc (Some s) g'"
  by (simp add: pick_strict_order_def)

theorem seeded_run_ignores_generator_state_witness:
  "pick_strict_order nat_seed rot_shuffle [pA, pB, pC, pD] {} [1200, 1300, 1200]
         False False None (Some 7) 0
   = pick_strict_order nat_seed rot_shuffle [pA, pB, pC, pD] {} [1200, 1300, 1200]
         False False None (Some 7) 5"
  by (rule seeded_run_ignores_generator_state)

text \<open>Without a seed the result does depend on the state of the generator.\<close>

lemma unseeded_run_depends_on_generator_state:
  "pick_strict_order nat_seed rot_shuffle [pA, pB, pC, pD] {} [1200, 1300, 1200]
         False False None None 0
   \<noteq> pick_strict_order nat_seed rot_shuffle [pA, pB, pC, pD] {} [1200, 1300, 1200]
         False False None None 1"
  by code_simp

text \<open>
  Claim C4. When the loop has served the ratings \<open>rs1\<close> and reaches a rating \<open>r\<close> whose
  bucket holds no candidate that passes the constraints in the state reached (an empty
  bucket included), \<open>pick_strict_order\<close> fails there, whatever ratings \<open>rs2\<close> follow: no
  other rating is tried and the picks already made are not revised. The error raised is
  the one of line 239 for \<open>r\<close> and the constraints in force. Its message is
  \<open>No available problem for rating r under constraints: ... .\<close>, it contains the text
  of \<open>r\<close>, and it contains \<open>distinct contest\<close> when \<open>distinct_contest\<close> is set,
  \<open>no tag repetition\<close> when \<open>distinct_tags\<close> is set and \<open>tag caps=\<close> with the
  dictionary when \<open>tag_caps\<close> is not empty; the list of the constraints holds each of
  the three exactly when it is in force.
\<close>

theorem exhausted_bucket_fails:
  assumes "C = \<lparr>distinct_contest = dc, distinct_tags = dt, tag_caps = caps_norm tc\<rparr>"
    and "b = fst (shuffle_all shuffle (case seed of None \<Rightarrow> g | Some s \<Rightarrow> seed_rng s)
                   (make_buckets candidates attempted_set))"
    and "pick_loop C b init_state rs1 = Inr (b1, st1)"
    and "\<forall>c \<in> set (bucket_get b1 r). rejected C st1 c"
  shows "fst (pick_strict_order seed_rng shuffle candidates attempted_set (rs1 @ r # rs2)
               dc dt tc seed g) = Inl (No_available_problem r (details C))
         \<and> (Distinct_contest \<in> set (details C) \<longleftrightarrow> dc)
         \<and> (No_tag_repetition \<in> set (details C) \<longleftrightarrow> dt)
         \<and> (Tag_caps d \<in> set (details C) \<longleftrightarrow> caps_norm tc \<noteq> [] \<and> d = caps_norm tc)
         \<and> (\<exists>e. fst (pick_strict_order seed_rng shuffle candidates attempted_set (rs1 @ r # rs2)
                       dc dt tc seed g) = Inl e
                \<and> sel_error_text str_int repr_caps e
                    = ''No available problem for rating '' @ str_int r @ '' under constraints: ''
                      @ (if \<not> dc \<and> \<not> dt \<and> caps_norm tc = [] then ''none''
                         else join '', ''
                                ((if dc then [''distinct contest''] else [])
                                 @ (if dt then [''no tag repetition''] else [])
                                 @ (if caps_norm tc \<noteq> []
                                    then [''tag caps='' @ repr_caps (caps_norm tc)] else [])))
                      @ ''.''
                \<and> sublist (str_int r) (sel_error_text str_int repr_caps e)
                \<and> (dc \<longrightarrow> sublist ''distinct contest'' (sel_error_text str_int repr_caps e))
                \<and> (dt \<longrightarrow> sublist ''no tag repetition'' (sel_error_text str_int repr_caps e))
                \<and> (caps_norm tc \<noteq> [] \<longrightarrow>
                     sublist (''tag caps='' @ repr_caps (caps_norm tc))
                       (sel_error_text str_int repr_caps e)))"
proof -
  have "scan_pool C st1 (bucket_get b1 r) = (None, [], st1)"
    by (rule scan_pool_all_rejected [OF assms(4)])
  then have "pick_loop C b1 st1 (r # rs2) = Inl (No_available_problem r (details C))" by simp
  then have "pick_loop C b init_state (rs1 @ r # rs2) = Inl (No_available_problem r (details C))"
    by (simp add: pick_loop_append assms(3))
  then have fail: "fst (pick_strict_order seed_rng shuffle candidates attempted_set (rs1 @ r # rs2)
               dc dt tc seed g) = Inl (No_available_problem r (details C))"
    unfolding pick_strict_order_def Let_def assms(1) assms(2)
    by (auto split: prod.splits)
  have sel: "distinct_contest C = dc" "distinct_tags C = dt" "tag_caps C = caps_norm tc"
    by (simp_all add: assms(1))
  have lists: "(Distinct_contest \<in> set (details C) \<longleftrightarrow> dc)
         \<and> (No_tag_repetition \<in> set (details C) \<longleftrightarrow> dt)
         \<and> (Tag_caps d \<in> set (details C) \<longleftrightarrow> caps_norm tc \<noteq> [] \<and> d = caps_norm tc)"
    using details_lists_constraints [of C d] by (simp add: sel)
  have msg: "sel_error_text str_int repr_caps (No_available_problem r (details C))
      = ''No available problem for rating '' @ str_int r @ '' under constraints: ''
        @ (if \<not> dc \<and> \<not> dt \<and> caps_norm tc = [] then ''none''
           else join '', ''
                  ((if dc then [''distinct contest''] else [])
                   @ (if dt then [''no tag repetition''] else [])
                   @ (if caps_norm tc \<noteq> []
                      then [''tag caps='' @ repr_caps (caps_norm tc)] else [])))
        @ ''.''"
    using sel_error_text_details [where str_int = str_int and r = r and repr_caps = repr_caps
      and C = C] unfolding sel .
  note names = sel_error_text_names [where str_int = str_int and r = r and repr_caps = repr_caps
      and C = C, unfolded sel]
  from fail lists msg names show ?thesis by blast
qed

theorem exhausted_bucket_fails_witness:
  "pick_loop \<lparr>distinct_contest = True, distinct_tags = True,
              tag_caps = caps_norm (Some [(''Greedy'', 1)])\<rparr>
     (fst (shuffle_all rot_shuffle (case Some 7 of None \<Rightarrow> 0 | Some s \<Rightarrow> nat_seed s)
             (make_buckets [pA, pB, pD] {}))) init_state [1200]
     = Inr ([(1200, [pB]), (1300, [pD])],
            \<lparr>picked = [pA], used_keys = {(1, ''A'')}, used_contests = {1},
               tag_counts = [(''math'', 1), (''dp'', 1)]\<rparr>)
   \<and> bucket_get [(1200, [pB]), (1300, [pD])] 1200 = [pB]
   \<and> rejected \<lparr>distinct_contest = True, distinct_tags = True,
                tag_caps = caps_norm (Some [(''Greedy'', 1)])\<rparr>
        \<lparr>picked = [pA], used_keys = {(1, ''A'')}, used_contests = {1},
           tag_counts = [(''math'', 1), (''dp'', 1)]\<rparr> pB
   \<and> caps_norm (Some [(''Greedy'', 1)]) = [(''greedy'', 1)]
   \<and> fst (pick_strict_order nat_seed rot_shuffle [pA, pB, pD] {} ([1200] @ 1200 # [1300])
            True True (Some [(''Greedy'', 1)]) (Some 7) 0)
       = Inl (No_available_problem 1200
                [Distinct_contest, No_tag_repetition, Tag_caps [(''greedy'', 1)]])
   \<and> sel_error_text decimal_int braces_caps
        (No_available_problem 1200
           [Distinct_contest, No_tag_repetition, Tag_caps [(''greedy'', 1)]])
       = ''No available problem for rating 1200 under constraints: distinct contest, no tag repetition, tag caps={'greedy': 1}.''
   \<and> sublist ''1200''
        (sel_error_text decimal_int braces_caps
           (No_available_problem 1200
              [Distinct_contest, No_tag_repetition, Tag_caps [(''greedy'', 1)]]))
   \<and> sublist ''distinct contest''
        (sel_error_text decimal_int braces_caps
           (No_available_problem 1200
              [Distinct_contest, No_tag_repetition, Tag_caps [(''greedy'', 1)]]))"
proof -
  let ?C = "\<lparr>distinct_contest = True, distinct_tags = True,
              tag_caps = caps_norm (Some [(''Greedy'', 1)])\<rparr>"
  let ?st = "\<lparr>picked = [pA], used_keys = {(1, ''A'')}, used_contests = {1},
               tag_counts = [(''math'', 1), (''dp'', 1)]\<rparr>"
  let ?e = "No_available_problem 1200
              [Distinct_contest, No_tag_repetition, Tag_caps [(''greedy'', 1)]]"
  have run: "pick_loop ?C
     (fst (shuffle_all rot_shuffle (case Some 7 of None \<Rightarrow> 0 | Some s \<Rightarrow> nat_seed s)
             (make_buckets [pA, pB, pD] {}))) init_state [1200]
     = Inr ([(1200, [pB]), (1300, [pD])], ?st)"
    by code_simp
  have pool: "bucket_get [(1200, [pB]), (1300, [pD])] 1200 = [pB]"
    by code_simp
  have rej: "rejected ?C ?st pB"
    by code_simp
  have all: "\<forall>c \<in> set (bucket_get [(1200, [pB]), (1300, [pD])] 1200). rejected ?C ?st c"
    using rej by (simp add: pool)
  have caps: "caps_norm (Some [(''Greedy'', 1)]) = [(''greedy'', 1)]"
    by code_simp
  have d: "details ?C = [Distinct_contest, No_tag_repetition, Tag_caps [(''greedy'', 1)]]"
    by code_simp
  have n: "decimal_int 1200 = ''1200''"
    by code_simp
  have t: "''No available problem for rating '' @ decimal_int 1200 @ '' under constraints: ''
       @ (if \<not> True \<and> \<not> True \<and> caps_norm (Some [(''Greedy'', 1)]) = [] then ''none''
          else join '', ''
                 ((if True then [''distinct contest''] else [])
                  @ (if True then [''no tag repetition''] else [])
                  @ (if caps_norm (Some [(''Greedy'', 1)]) \<noteq> []
                     then [''tag caps='' @ braces_caps (caps_norm (Some [(''Greedy'', 1)]))]
                     else [])))
       @ ''.''
     = ''No available problem for rating 1200 under constraints: distinct contest, no tag repetition, tag caps={'greedy': 1}.''"
    by code_simp
  from exhausted_bucket_fails [OF refl refl run all, of "[1300]" "[(''greedy'', 1)]"
      decimal_int braces_caps]
  obtain e where
    f: "fst (pick_strict_order nat_seed rot_shuffle [pA, pB, pD] {} ([1200] @ 1200 # [1300])
            True True (Some [(''Greedy'', 1)]) (Some 7) 0) = Inl (No_available_problem 1200 (details ?C))"
    and e: "fst (pick_strict_order nat_seed rot_shuffle [pA, pB, pD] {} ([1200] @ 1200 # [1300])
            True True (Some [(''Greedy'', 1)]) (Some 7) 0) = Inl e"
    and m: "sel_error_text decimal_int braces_caps e
       = ''No available problem for rating '' @ decimal_int 1200 @ '' under constraints: ''
       @ (if \<not> True \<and> \<not> True \<and> caps_norm (Some [(''Greedy'', 1)]) = [] then ''none''
          else join '', ''
                 ((if True then [''distinct contest''] else [])
                  @ (if True then [''no tag repetition''] else [])
                  @ (if caps_norm (Some [(''Greedy'', 1)]) \<noteq> []
                     then [''tag caps='' @ braces_caps (caps_norm (Some [(''Greedy'', 1)]))]
                     else [])))
       @ ''.''"
    and s1: "sublist (decimal_int 1200) (sel_error_text decimal_int braces_caps e)"
    and s2: "sublist ''distinct contest'' (sel_error_text decimal_int braces_caps e)"
    by blast
  from f e have "e = ?e" by (simp add: d)
  with f m s1 s2 run pool rej caps d n t show ?thesis by simp
qed

text \<open>
  Claim C5. On success \<open>pick_strict_order\<close> returns one problem per entry of
  \<open>ratings_ordered\<close>, in the same order: the lengths agree and the pick at each position
  has the rating at that position.
\<close>

theorem picks_follow_ratings:
  assumes "permuting shuffle"
    and "fst (pick_strict_order seed_rng shuffle candidates attempted_set ratings_ordered
             dc dt tc seed g) = Inr picks"
  shows "length picks = length ratings_ordered \<and>
         (\<forall>i < length ratings_ordered. rating (picks ! i) = ratings_ordered ! i)"
proof -
  from assms(2) obtain b' st where
    run: "pick_loop \<lparr>distinct_contest = dc, distinct_tags = dt, tag_caps = caps_norm tc\<rparr>
       (fst (shuffle_all shuffle (case seed of None \<Rightarrow> g | Some s \<Rightarrow> seed_rng s)
               (make_buckets candidates attempted_set)))
       init_state ratings_ordered = Inr (b', st)" and p: "picks = picked st"
    by (rule pick_strict_order_Inr)
  have "buckets_ok (\<lambda>p. key p \<notin> attempted_set)
     (fst (shuffle_all shuffle (case seed of None \<Rightarrow> g | Some s \<Rightarrow> seed_rng s)
               (make_buckets candidates attempted_set)))"
    by (rule buckets_ok_shuffle_all [OF assms(1) buckets_ok_make])
  from pick_loop_picked [OF run this] have m: "map rating picks = ratings_ordered"
    by (auto simp: p init_state_def)
  then have "length picks = length ratings_ordered" by (metis length_map)
  moreover have "\<forall>i < length ratings_ordered. rating (picks ! i) = ratings_ordered ! i"
    using m by (metis length_map nth_map)
  ultimately show ?thesis by simp
qed

theorem picks_follow_ratings_witness:
  "permuting rot_shuffle
   \<and> fst (pick_strict_order nat_seed rot_shuffle [pA, pB, pC, pD] {} [1200, 1300, 1200]
         False False None None 3) = Inr [pC, pD, pB]
   \<and> length [pC, pD, pB] = length [1200, 1300, 1200 :: int]
   \<and> (2::nat) < length [1200, 1300, 1200 :: int]
   \<and> rating ([pC, pD, pB] ! 2) = [1200, 1300, 1200] ! 2"
proof -
  have h: "fst (pick_strict_order nat_seed rot_shuffle [pA, pB, pC, pD] {} [1200, 1300, 1200]
         False False None None 3) = Inr [pC, pD, pB]"
    by code_simp
  have "length [pC, pD, pB] = length [1200, 1300, 1200 :: int]"
    and "\<forall>i < length [1200, 1300, 1200 :: int]. rating ([pC, pD, pB] ! i) = [1200, 1300, 1200] ! i"
    using picks_follow_ratings [OF permuting_rot h] by blast+
  moreover have "(2::nat) < length [1200, 1300, 1200 :: int]" by simp
  ultimately show ?thesis using h permuting_rot by blast
qed

text \<open>
  Claim C9. Called with a \<open>tag_caps\<close> that has entries below 1, \<open>pick_strict_order\<close>
  behaves exactly as on the \<open>tag_caps\<close> without these entries: same picks, same failure,
  same final state of the generator.
\<close>

theorem low_caps_are_dropped:
  "pick_strict_order seed_rng shuffle candidates attempted_set ratings_ordered dc dt (Some items) seed g
   = pick_strict_order seed_rng shuffle candidates attempted_set ratings_ordered dc dt
       (Some (filter (\<lambda>(k, v). v \<ge> 1) items)) seed g"
  by (simp add: pick_strict_order_def caps_norm_filter)

theorem low_caps_are_dropped_witness:
  "pick_strict_order nat_seed rot_shuffle [pA, pB, pC, pD] {} [1200, 1200] False False
     (Some [(''dp'', 0), (''greedy'', 1)]) (Some 7) 0
   = pick_strict_order nat_seed rot_shuffle [pA, pB, pC, pD] {} [1200, 1200] False False
     (Some [(''greedy'', 1)]) (Some 7) 0"
  using low_caps_are_dropped [of nat_seed rot_shuffle "[pA, pB, pC, pD]" "{}" "[1200, 1200]" False False
     "[(''dp'', 0), (''greedy'', 1)]" "Some 7" 0]
  by simp

section \<open>Properties of the fetcher\<close>

subsection \<open>Where a returned payload comes from\<close>

lemma try_hosts_Returned:
  "try_hosts parse get path i k hosts last_err = Inl (Returned v) \<Longrightarrow>
     \<exists>m < length hosts. try_host parse path (get i (k + m) (hosts ! m @ ''/'' @ path)) = Return v"
proof (induction hosts arbitrary: k last_err)
  case Nil
  then show ?case by simp
next
  case (Cons base hosts)
  show ?case
  proof (cases "try_host parse path (get i k (base @ ''/'' @ path))")
    case (Return w)
    with Cons.prems have "w = v" by simp
    with Return show ?thesis by (intro exI [of _ 0]) simp
  next
    case (Caught e)
    with Cons.prems have "try_hosts parse get path i (Suc k) hosts (Some e) = Inl (Returned v)"
      by simp
    from Cons.IH [OF this] obtain m where
      "m < length hosts" "try_host parse path (get i (Suc k + m) (hosts ! m @ ''/'' @ path)) = Return v"
      by blast
    then show ?thesis by (intro exI [of _ "Suc m"]) simp
  next
    case Pass
    with Cons.prems have "try_hosts parse get path i (Suc k) hosts last_err = Inl (Returned v)"
      by simp
    from Cons.IH [OF this] obtain m where
      "m < length hosts" "try_host parse path (get i (Suc k + m) (hosts ! m @ ''/'' @ path)) = Return v"
      by blast
    then show ?thesis by (intro exI [of _ "Suc m"]) simp
  next
    case Crash
    with Cons.prems show ?thesis by simp
  qed
qed

lemma rounds_Returned:
  "rounds parse get hosts path n i last_err = Returned v \<Longrightarrow>
     \<exists>j < n. \<exists>m < length hosts.
        try_host parse path (get (i + j) m (hosts ! m @ ''/'' @ path)) = Return v"
proof (induction n arbitrary: i last_err)
  case 0
  then show ?case by simp
next
  case (Suc n)
  show ?case
  proof (cases "try_hosts parse get path i 0 hosts last_err")
    case (Inl r)
    with Suc.prems have "try_hosts parse get path i 0 hosts last_err = Inl (Returned v)" by simp
    from try_hosts_Returned [OF this] show ?thesis by (intro exI [of _ 0]) simp
  next
    case (Inr le)
    with Suc.prems have "rounds parse get hosts path n (Suc i) le = Returned v" by simp
    from Suc.IH [OF this] obtain j m where
      "j < n" "m < length hosts"
      "try_host parse path (get (Suc i + j) m (hosts ! m @ ''/'' @ path)) = Return v"
      by blast
    then show ?thesis by (intro exI [of _ "Suc j"]) auto
  qed
qed

lemma try_host_Return:
  "try_host parse path res = Return v \<Longrightarrow>
     \<exists>ct body j. res = Response ct body \<and> parse body = Some (JObj j)
        \<and> (json_ctype ct \<or> \<not> looks_like_html body)
        \<and> map_of j ''status'' = Some (JStr ''OK'') \<and> map_of j ''result'' = Some v"
  by (auto simp: try_host_def json_ctype_def Let_def
      split: http_result.splits if_splits option.splits json.splits)

subsection \<open>The claims about the fetcher\<close>

text \<open>
  Claim C6 says that an API error whose comment is not transient is raised to the caller
  at once, with no further host and no further round. The \<open>raise\<close> of line 74 is inside
  the \<open>try\<close> whose handler at line 75 catches \<open>RuntimeError\<close>: the error is stored in
  \<open>last_err\<close> and the loop goes on. Here the first seven requests are answered with
  the comment of an unknown handle, which is not transient, and \<open>cf_get\<close> returns the
  payload of the eighth.
\<close>

theorem non_transient_error_is_retried:
  "try_host demo_parse ''user.status'' (last_attempt_ok 0 0 (''https://codeforces.com/api'' @ ''/'' @ ''user.status''))
     = Caught (Api_failed ''user.status: handle: User with handle nosuchuser123 not found'')
   \<and> \<not> transient ''handle: User with handle nosuchuser123 not found''
   \<and> cf_get demo_parse last_attempt_ok API_HOSTS ''user.status'' 4 = Returned (JList [JInt 7])"
  by code_simp

text \<open>
  Claim C7, as stated, has the body look like HTML exactly when it starts, after
  trimming and lowercasing, with \<open><!doctype html\<close> or with \<open><html>\<close>. The test of line
  50 is for \<open><html\<close>, without the closing bracket: a body that opens with a tag that
  has attributes looks like HTML.
\<close>

theorem looks_like_html_counterexample:
  "looks_like_html ''  <HTML lang=en><body>Just a moment</body></html>''
   \<and> \<not> (startswith (lower (lstrip ''  <HTML lang=en><body>Just a moment</body></html>'')) ''<!doctype html''
        \<or> startswith (lower (lstrip ''  <HTML lang=en><body>Just a moment</body></html>'')) ''<html>'')"
  by code_simp

text \<open>
  Claim C7, amended. \<open>cf_get\<close> returns a payload only if one of the responses it
  received has a body that parses as a JSON object with status \<open>OK\<close> and this payload
  as result, and either its content type marks it as JSON or its body does not look like
  HTML. A body looks like HTML exactly when, after trimming leading whitespace and
  lowercasing, it starts with \<open><!doctype html\<close> or with \<open><html\<close>. A body that looks
  like HTML under a content type that does not mark JSON is a failure the loop recovers
  from: it is recorded as \<open>last_err\<close> and the next host is tried.
\<close>

theorem cf_get_accepts_only_json:
  "(cf_get parse get hosts path retries = Returned v \<longrightarrow>
      (\<exists>i < retries. \<exists>m < length hosts. \<exists>ct body j.
          get i m (hosts ! m @ ''/'' @ path) = Response ct body
          \<and> parse body = Some (JObj j)
          \<and> (json_ctype ct \<or> \<not> looks_like_html body)
          \<and> map_of j ''status'' = Some (JStr ''OK'') \<and> map_of j ''result'' = Some v))
   \<and> (looks_like_html text \<longleftrightarrow>
        startswith (lower (lstrip text)) ''<!doctype html''
        \<or> startswith (lower (lstrip text)) ''<html'')
   \<and> (get i' k (base @ ''/'' @ path) = Response ct' text \<and> \<not> json_ctype ct' \<and> looks_like_html text \<longrightarrow>
        try_hosts parse get path i' k (base # rest) last_err
          = try_hosts parse get path i' (Suc k) rest (Some Waf_html))"
proof -
  have a: "\<exists>i < retries. \<exists>m < length hosts. \<exists>ct body j.
          get i m (hosts ! m @ ''/'' @ path) = Response ct body
          \<and> parse body = Some (JObj j)
          \<and> (json_ctype ct \<or> \<not> looks_like_html body)
          \<and> map_of j ''status'' = Some (JStr ''OK'') \<and> map_of j ''result'' = Some v"
    if "cf_get parse get hosts path retries = Returned v"
  proof -
    from that have "rounds parse get hosts path retries 0 None = Returned v"
      by (simp add: cf_get_def)
    from rounds_Returned [OF this] obtain i m where
      im: "i < retries" "m < length hosts"
      and r: "try_host parse path (get i m (hosts ! m @ ''/'' @ path)) = Return v"
      by auto
    from try_host_Return [OF r] im show ?thesis by blast
  qed
  have b: "looks_like_html text \<longleftrightarrow>
        startswith (lower (lstrip text)) ''<!doctype html''
        \<or> startswith (lower (lstrip text)) ''<html''"
    by (simp add: looks_like_html_def Let_def)
  have c: "try_hosts parse get path i' k (base # rest) last_err
          = try_hosts parse get path i' (Suc k) rest (Some Waf_html)"
    if "get i' k (base @ ''/'' @ path) = Response ct' text" "\<not> json_ctype ct'" "looks_like_html text"
    using that by (simp add: try_host_def json_ctype_def)
  from a b c show ?thesis by blast
qed

theorem cf_get_accepts_only_json_witness:
  "cf_get demo_parse waf_then_ok API_HOSTS ''contest.list'' 4 = Returned (JList [JInt 7])
   \<and> (\<exists>i < 4. \<exists>m < length API_HOSTS. \<exists>ct body j.
          waf_then_ok i m (API_HOSTS ! m @ ''/'' @ ''contest.list'') = Response ct body
          \<and> demo_parse body = Some (JObj j)
          \<and> (json_ctype ct \<or> \<not> looks_like_html body)
          \<and> map_of j ''status'' = Some (JStr ''OK'') \<and> map_of j ''result'' = Some (JList [JInt 7]))
   \<and> waf_then_ok 0 0 (''https://codeforces.com/api'' @ ''/'' @ ''contest.list'')
        = Response (Some ''text/html'') ''  <HTML lang=en><body>Just a moment</body></html>''
   \<and> \<not> json_ctype (Some ''text/html'')
   \<and> looks_like_html ''  <HTML lang=en><body>Just a moment</body></html>''
   \<and> try_hosts demo_parse waf_then_ok ''contest.list'' 0 0
         (''https://codeforces.com/api'' # [''https://www.codeforces.com/api'']) None
       = try_hosts demo_parse waf_then_ok ''contest.list'' 0 (Suc 0)
           [''https://www.codeforces.com/api''] (Some Waf_html)"
proof -
  have r: "cf_get demo_parse waf_then_ok API_HOSTS ''contest.list'' 4 = Returned (JList [JInt 7])"
    by code_simp
  have g: "waf_then_ok 0 0 (''https://codeforces.com/api'' @ ''/'' @ ''contest.list'')
        = Response (Some ''text/html'') ''  <HTML lang=en><body>Just a moment</body></html>''"
    by code_simp
  have n: "\<not> json_ctype (Some ''text/html'')"
    by code_simp
  have h: "looks_like_html ''  <HTML lang=en><body>Just a moment</body></html>''"
    by code_simp
  note t = cf_get_accepts_only_json [of demo_parse waf_then_ok API_HOSTS "''contest.list''" 4
      "JList [JInt 7]" "''  <HTML lang=en><body>Just a moment</body></html>''" 0 0
      "''https://codeforces.com/api''" "Some ''text/html''" "[''https://www.codeforces.com/api'']" None]
  from t r g n h show ?thesis by blast
qed


section \<open>Properties of the configuration loader\<close>

subsection \<open>The validation of the caps\<close>

lemma validate_tag_caps_bad:
  "find (\<lambda>(k, v). bad_cap L v) items = Some (k, v) \<Longrightarrow>
     validate_tag_caps L items caps = Inl (Sys_exit 2 (tag_cap_message L k v))"
proof (induction items arbitrary: caps)
  case Nil
  then show ?case by simp
next
  case (Cons a items)
  obtain k' v' where a: "a = (k', v')" by (cases a)
  show ?case
  proof (cases "bad_cap L v'")
    case True
    with Cons.prems a have "k' = k" "v' = v" by simp_all
    with True show ?thesis
      by (auto simp: a bad_cap_def tag_cap_message_def die_def split: option.splits)
  next
    case False
    with Cons.prems a have "find (\<lambda>(k, v). bad_cap L v) items = Some (k, v)" by simp
    from Cons.IH [OF this] False show ?thesis
      by (auto simp: a bad_cap_def split: option.splits)
  qed
qed

lemma find_bad_cap:
  "(k0, v0) \<in> set items \<Longrightarrow> bad_cap L v0 \<Longrightarrow>
     \<exists>k v. find (\<lambda>(k, v). bad_cap L v) items = Some (k, v)"
  by (cases "find (\<lambda>(k, v). bad_cap L v) items") (auto simp: find_None_iff)

lemma before_tag_caps_items:
  "before_tag_caps L cfg = Inr (req, nums, items) \<Longrightarrow>
     get_default cfg ''tag_caps'' (JObj []) = JObj items"
  by (auto simp: before_tag_caps_def die_def split: sum.splits json.splits)

lemma bad_cap_numbers:
  "bad_cap L (JInt n) \<longleftrightarrow> n < 1"
  "bad_cap L (JFloat (Finite q)) \<longleftrightarrow> q < 1"
  "bad_cap L (JFloat NaN)" "bad_cap L JNull"
  by (auto simp: bad_cap_def trunc_def)

subsection \<open>Changing the three numbers\<close>











subsection \<open>The claims about the configuration loader\<close>

text \<open>
  Claim C8. When \<open>tag_caps\<close> has an entry whose value is below 1 or is not convertible
  to an integer, \<open>load_config\<close> returns no configuration; and when the steps before the
  validation of \<open>tag_caps\<close> pass, it ends with \<open>die\<close> and exit code 2, with the message
  that names the key of the first such entry. \<open>main\<close> calls \<open>load_config\<close> before
  anything else (line 349), so the selector is not reached.
\<close>

theorem load_config_rejects_bad_tag_caps:
  assumes "get_default cfg ''tag_caps'' (JObj []) = JObj items"
    and "(k0, v0) \<in> set items" and "bad_cap L v0"
  shows "\<exists>k v. find (\<lambda>(k, v). bad_cap L v) items = Some (k, v)
           \<and> (\<forall>c. load_config L path (Inr (JObj cfg)) \<noteq> Inr c)
           \<and> ((\<exists>x. before_tag_caps L cfg = Inr x) \<longrightarrow>
                load_config L path (Inr (JObj cfg)) = Inl (Sys_exit 2 (tag_cap_message L k v)))"
proof -
  from find_bad_cap [OF assms(2,3)] obtain k v where
    f: "find (\<lambda>(k, v). bad_cap L v) items = Some (k, v)" by blast
  have v: "validate_tag_caps L items [] = Inl (Sys_exit 2 (tag_cap_message L k v))"
    by (rule validate_tag_caps_bad [OF f])
  have r: "load_config L path (Inr (JObj cfg)) = Inl (Sys_exit 2 (tag_cap_message L k v))"
    if "before_tag_caps L cfg = Inr x" for x
  proof -
    obtain req nums its where x: "x = (req, nums, its)" by (cases x)
    from before_tag_caps_items [OF that [unfolded x]] assms(1) have "its = items" by simp
    with that x v show ?thesis
      by (simp add: load_config_def split: prod.splits)
  qed
  have "load_config L path (Inr (JObj cfg)) \<noteq> Inr c" for c
  proof (cases "before_tag_caps L cfg")
    case (Inl a)
    then show ?thesis by (simp add: load_config_def)
  next
    case (Inr x)
    from r [OF this] show ?thesis by simp
  qed
  with f r show ?thesis by blast
qed


theorem load_config_rejects_bad_tag_caps_witness:
  "get_default bad_caps_cfg ''tag_caps'' (JObj [])
     = JObj [(''dp'', JInt 2), (''Strings'', JInt 0), (''math'', JNull)]
   \<and> (''math'', JNull) \<in> set [(''dp'', JInt 2), (''Strings'', JInt 0), (''math'', JNull)]
   \<and> bad_cap demo_lib JNull
   \<and> find (\<lambda>(k, v). bad_cap demo_lib v) [(''dp'', JInt 2), (''Strings'', JInt 0), (''math'', JNull)]
       = Some (''Strings'', JInt 0)
   \<and> (\<exists>x. before_tag_caps demo_lib bad_caps_cfg = Inr x)
   \<and> load_config demo_lib ''cf_pick.json'' (Inr (JObj bad_caps_cfg))
       = Inl (Sys_exit 2 (''Config: tag_caps['' @ quoted ''Strings'' @ ''] must be >= 1.''))"
proof -
  let ?items = "[(''dp'', JInt 2), (''Strings'', JInt 0), (''math'', JNull)]"
  have g: "get_default bad_caps_cfg ''tag_caps'' (JObj []) = JObj ?items"
    by code_simp
  have m: "(''math'', JNull) \<in> set ?items"
    by simp
  have b: "bad_cap demo_lib JNull"
    by code_simp
  have f: "find (\<lambda>(k, v). bad_cap demo_lib v) ?items = Some (''Strings'', JInt 0)"
    by code_simp
  have p: "before_tag_caps demo_lib bad_caps_cfg
     = Inr (([JStr ''tourist''], [JInt 1200], 2015, 2020), (RATE_MIN_INTERVAL, 45, 500), ?items)"
    by code_simp
  then have e: "\<exists>x. before_tag_caps demo_lib bad_caps_cfg = Inr x" by blast
  have t: "tag_cap_message demo_lib ''Strings'' (JInt 0)
     = ''Config: tag_caps['' @ quoted ''Strings'' @ ''] must be >= 1.''"
    by code_simp
  from load_config_rejects_bad_tag_caps [OF g m b, of "''cf_pick.json''"] f e
  have "load_config demo_lib ''cf_pick.json'' (Inr (JObj bad_caps_cfg))
      = Inl (Sys_exit 2 (tag_cap_message demo_lib ''Strings'' (JInt 0)))"
    by auto
  with g m b f e t show ?thesis by simp
qed



end
